theory Spec2Isabelle
  imports Main "HOL-Library.Multiset"
begin

section \<open>Python values\<close>

text \<open>
  A Python \<open>str\<close> is a sequence of Unicode code points, so a string is a list of
  code points here.  \<open>py\<close> turns a literal of the source into such a string.
\<close>

type_synonym pystr = "nat list"

definition py :: "string \<Rightarrow> pystr" where
  "py s = map of_char s"

text \<open>
  \<open>str.strip()\<close> without an argument removes, at both ends, the characters for which
  \<open>str.isspace\<close> holds: U+0009 to U+000D, U+001C to U+0020, U+0085, U+00A0, U+1680,
  U+2000 to U+200A, U+2028, U+2029, U+202F, U+205F and U+3000.
\<close>

definition isspace :: "nat \<Rightarrow> bool" where
  "isspace c =
     ((9 \<le> c \<and> c \<le> 13) \<or> (28 \<le> c \<and> c \<le> 32) \<or> c = 133 \<or> c = 160 \<or> c = 5760
      \<or> (8192 \<le> c \<and> c \<le> 8202) \<or> c = 8232 \<or> c = 8233 \<or> c = 8239 \<or> c = 8287
      \<or> c = 12288)"

definition strip :: "pystr \<Rightarrow> pystr" where
  "strip s = rev (dropWhile isspace (rev (dropWhile isspace s)))"

text \<open>
  The values \<open>request.get_json()\<close> can return.  A dict is the list of its items.  Of a
  float the handlers only look at the truth value, which is what \<open>JFloat\<close> carries
  (\<open>False\<close> for \<open>0.0\<close> and \<open>-0.0\<close>).
\<close>

datatype json =
    JNull
  | JBool bool
  | JInt int
  | JFloat bool
  | JStr pystr
  | JArr "json list"
  | JObj "(pystr \<times> json) list"

text \<open>Python's truth value of a parsed JSON value, as \<open>or\<close> tests it.\<close>

fun truthy :: "json \<Rightarrow> bool" where
  "truthy JNull = False"
| "truthy (JBool b) = b"
| "truthy (JInt i) = (i \<noteq> 0)"
| "truthy (JFloat nz) = nz"
| "truthy (JStr s) = (s \<noteq> [])"
| "truthy (JArr xs) = (xs \<noteq> [])"
| "truthy (JObj kvs) = (kvs \<noteq> [])"

text \<open>\<open>x or None\<close>, where \<open>x\<close> is \<open>None\<close> or a parsed JSON value.\<close>

definition or_None :: "json option \<Rightarrow> json option" where
  "or_None x = (case x of None \<Rightarrow> None | Some v \<Rightarrow> if truthy v then Some v else None)"

section \<open>Models\<close>

text \<open>
  The two tables of the source.  Fields are named after the class and the column
  (\<open>User.id\<close>, \<open>Task.user_id\<close>, ...).  Timestamps are points of a clock, as natural
  numbers.
\<close>

record User =
  User_id :: nat
  User_username :: pystr
  User_password_hash :: pystr
  User_created_at :: nat

record Task =
  Task_id :: nat
  Task_user_id :: nat
  Task_title :: pystr
  Task_due_date :: "pystr option"
  Task_note :: "pystr option"
  Task_done :: bool
  Task_created_at :: nat

text \<open>
  The database: the rows of each table in the order of their insertion, and the
  auto-increment counter of each primary key.  Comparisons in queries are equality of
  values, as the queries of the source are written; the widths declared for the text
  columns are left to the database engine and are not part of this model.
\<close>

record db =
  users :: "User list"
  tasks :: "Task list"
  next_user_id :: nat
  next_task_id :: nat

definition empty_db :: db where
  "empty_db = \<lparr>users = [], tasks = [], next_user_id = 1, next_task_id = 1\<rparr>"

text \<open>
  The session of the request: the value under the key \<open>user_id\<close>, \<open>None\<close> when the
  key is not in the session (no cookie, or one whose signature does not verify).
\<close>

type_synonym session = "nat option"

text \<open>
  What the source takes from its libraries: werkzeug's two password functions (the
  first also takes the salt it draws at random), \<open>datetime.isoformat\<close>, and what the
  database driver binds to a text column for a value that is not a string (\<open>None\<close>
  when it rejects the value and the commit raises).
\<close>

record env =
  generate_password_hash :: "pystr \<Rightarrow> pystr \<Rightarrow> pystr"
  check_password_hash :: "pystr \<Rightarrow> pystr \<Rightarrow> bool"
  isoformat :: "nat \<Rightarrow> pystr"
  bind_text :: "json \<Rightarrow> pystr option"

section \<open>Responses\<close>

datatype endpoint = Login | Index

datatype template =
    LOGIN_HTML "pystr option"
  | REGISTER_HTML "pystr option"
  | APP_HTML "User option"

text \<open>
  \<open>Jsonify body status\<close> is \<open>jsonify(body), status\<close>; \<open>InternalServerError\<close> is the
  response to an exception that leaves the view function.
\<close>

datatype response =
    Redirect endpoint
  | Render template
  | Jsonify json nat
  | InternalServerError

fun status_code :: "response \<Rightarrow> nat" where
  "status_code (Redirect e) = 302"
| "status_code (Render t) = 200"
| "status_code (Jsonify body st) = st"
| "status_code InternalServerError = 500"

type_synonym result = "db \<times> session \<times> response"

section \<open>Helpers\<close>

text \<open>
  \<open>login_required\<close>: the wrapped view runs only when \<open>user_id\<close> is in the session;
  otherwise the answer is a redirect to the login page.
\<close>

definition login_required :: "(db \<Rightarrow> session \<Rightarrow> result) \<Rightarrow> db \<Rightarrow> session \<Rightarrow> result" where
  "login_required fn d sess =
     (if sess = None then (d, sess, Redirect Login) else fn d sess)"

section \<open>Queries\<close>

text \<open>\<open>User.query.filter_by(username=username).first()\<close>\<close>

definition user_by_username :: "db \<Rightarrow> pystr \<Rightarrow> User option" where
  "user_by_username d name = find (\<lambda>u. User_username u = name) (users d)"

text \<open>\<open>db.session.get(User, id)\<close>\<close>

definition get_User :: "db \<Rightarrow> nat \<Rightarrow> User option" where
  "get_User d i = find (\<lambda>u. User_id u = i) (users d)"

text \<open>\<open>Task.query.filter_by(id=task_id, user_id=user_id).first()\<close>\<close>

definition task_by_id_and_user :: "db \<Rightarrow> nat \<Rightarrow> nat \<Rightarrow> Task option" where
  "task_by_id_and_user d task_id user_id =
     find (\<lambda>t. Task_id t = task_id \<and> Task_user_id t = user_id) (tasks d)"

text \<open>\<open>Task.query.filter_by(user_id=user_id).order_by(Task.id.desc()).all()\<close>\<close>

definition tasks_of_user :: "db \<Rightarrow> nat \<Rightarrow> Task list" where
  "tasks_of_user d user_id =
     rev (sort_key Task_id (filter (\<lambda>t. Task_user_id t = user_id) (tasks d)))"

section \<open>Routes\<close>

datatype http_method = GET | POST

text \<open>\<open>request.form\<close>: the fields of the posted form.\<close>

type_synonym form_data = "pystr \<rightharpoonup> pystr"

text \<open>\<open>request.form.get(k) or ''\<close>\<close>

definition form_get_or_empty :: "form_data \<Rightarrow> pystr \<Rightarrow> pystr" where
  "form_get_or_empty f k = (case f k of None \<Rightarrow> [] | Some v \<Rightarrow> v)"

text \<open>
  \<open>register\<close>.  \<open>now\<close> is what \<open>datetime.utcnow\<close> returns during the request and
  \<open>salt\<close> the salt that \<open>generate_password_hash\<close> draws.
\<close>

definition register :: "env \<Rightarrow> nat \<Rightarrow> pystr \<Rightarrow> http_method \<Rightarrow> form_data \<Rightarrow> db \<Rightarrow> session \<Rightarrow> result" where
  "register e now salt m f d sess =
     (case m of
        GET \<Rightarrow> (d, sess, Render (REGISTER_HTML None))
      | POST \<Rightarrow>
          (let username = strip (form_get_or_empty f (py ''username''));
               password = form_get_or_empty f (py ''password'')
           in if username = [] \<or> password = [] then
                (d, sess, Render (REGISTER_HTML (Some (py ''Enter username and password''))))
              else if user_by_username d username \<noteq> None then
                (d, sess, Render (REGISTER_HTML (Some (py ''Username already taken''))))
              else
                (let u = \<lparr>User_id = next_user_id d, User_username = username,
                          User_password_hash = generate_password_hash e salt password,
                          User_created_at = now\<rparr>
                 in (d\<lparr>users := users d @ [u], next_user_id := Suc (next_user_id d)\<rparr>,
                     Some (User_id u), Redirect Index))))"

definition login :: "env \<Rightarrow> http_method \<Rightarrow> form_data \<Rightarrow> db \<Rightarrow> session \<Rightarrow> result" where
  "login e m f d sess =
     (case m of
        GET \<Rightarrow> (d, sess, Render (LOGIN_HTML None))
      | POST \<Rightarrow>
          (let username = strip (form_get_or_empty f (py ''username''));
               password = form_get_or_empty f (py ''password'')
           in case user_by_username d username of
                None \<Rightarrow> (d, sess, Render (LOGIN_HTML (Some (py ''Invalid credentials''))))
              | Some user \<Rightarrow>
                  if \<not> check_password_hash e (User_password_hash user) password then
                    (d, sess, Render (LOGIN_HTML (Some (py ''Invalid credentials''))))
                  else (d, Some (User_id user), Redirect Index)))"

definition logout :: "db \<Rightarrow> session \<Rightarrow> result" where
  "logout d sess = (d, None, Redirect Login)"

text \<open>
  The views behind \<open>login_required\<close>.  Each reads \<open>session['user_id']\<close>, which raises
  \<open>KeyError\<close> when the key is missing.
\<close>

definition index_view :: "db \<Rightarrow> session \<Rightarrow> result" where
  "index_view d sess =
     (case sess of
        None \<Rightarrow> (d, sess, InternalServerError)
      | Some user_id \<Rightarrow> (d, sess, Render (APP_HTML (get_User d user_id))))"

definition index :: "db \<Rightarrow> session \<Rightarrow> result" where
  "index = login_required index_view"

definition json_of_text :: "pystr option \<Rightarrow> json" where
  "json_of_text x = (case x of None \<Rightarrow> JNull | Some s \<Rightarrow> JStr s)"

text \<open>The dict that \<open>tasks_api\<close> appends for a task.\<close>

definition task_dict :: "env \<Rightarrow> Task \<Rightarrow> json" where
  "task_dict e t =
     JObj [(py ''id'', JInt (int (Task_id t))),
           (py ''title'', JStr (Task_title t)),
           (py ''due_date'', json_of_text (Task_due_date t)),
           (py ''note'', json_of_text (Task_note t)),
           (py ''done'', JBool (Task_done t)),
           (py ''created_at'', JStr (isoformat e (Task_created_at t)))]"

definition tasks_api_view :: "env \<Rightarrow> db \<Rightarrow> session \<Rightarrow> result" where
  "tasks_api_view e d sess =
     (case sess of
        None \<Rightarrow> (d, sess, InternalServerError)
      | Some user_id \<Rightarrow>
          (d, sess, Jsonify (JArr (map (task_dict e) (tasks_of_user d user_id))) 200))"

definition tasks_api :: "env \<Rightarrow> db \<Rightarrow> session \<Rightarrow> result" where
  "tasks_api e = login_required (tasks_api_view e)"

text \<open>
  \<open>data.get(k)\<close> on \<open>data = request.get_json() or {}\<close>: \<open>Inl ()\<close> stands for the
  \<open>AttributeError\<close> of a truthy body that is not a dict.
\<close>

definition data_get :: "json option \<Rightarrow> pystr \<Rightarrow> unit + json option" where
  "data_get body k =
     (case or_None body of
        None \<Rightarrow> Inr None
      | Some (JObj kvs) \<Rightarrow> Inr (map_of kvs k)
      | Some _ \<Rightarrow> Inl ())"

text \<open>
  \<open>(v or '').strip()\<close>: a truthy value that is not a string has no \<open>strip\<close>
  (\<open>AttributeError\<close>, \<open>None\<close> here).
\<close>

definition or_empty_strip :: "json option \<Rightarrow> pystr option" where
  "or_empty_strip v =
     (case or_None v of
        None \<Rightarrow> Some (strip [])
      | Some (JStr s) \<Rightarrow> Some (strip s)
      | Some _ \<Rightarrow> None)"

text \<open>
  The value a text column receives for \<open>v or None\<close>: \<open>Some None\<close> is SQL NULL, a
  string is stored as it is, and any other value is up to the driver.
\<close>

definition column_text :: "env \<Rightarrow> json option \<Rightarrow> pystr option option" where
  "column_text e v =
     (case or_None v of
        None \<Rightarrow> Some None
      | Some (JStr s) \<Rightarrow> Some (Some s)
      | Some j \<Rightarrow> map_option Some (bind_text e j))"

definition ok_true :: json where
  "ok_true = JObj [(py ''ok'', JBool True)]"

definition error_json :: "string \<Rightarrow> json" where
  "error_json msg = JObj [(py ''error'', JStr (py msg))]"

text \<open>\<open>add_task\<close>; \<open>body\<close> is what \<open>request.get_json()\<close> returned.\<close>

definition add_task_view :: "env \<Rightarrow> nat \<Rightarrow> json option \<Rightarrow> db \<Rightarrow> session \<Rightarrow> result" where
  "add_task_view e now body d sess =
     (case data_get body (py ''title'') of
        Inl _ \<Rightarrow> (d, sess, InternalServerError)
      | Inr tv \<Rightarrow>
          (case or_empty_strip tv of
             None \<Rightarrow> (d, sess, InternalServerError)
           | Some title \<Rightarrow>
               if title = [] then (d, sess, Jsonify (error_json ''empty'') 400)
               else
                 (case (data_get body (py ''due_date''), data_get body (py ''note''), sess) of
                    (Inr dv, Inr nv, Some user_id) \<Rightarrow>
                      (case (column_text e dv, column_text e nv) of
                         (Some due, Some note) \<Rightarrow>
                           (let t = \<lparr>Task_id = next_task_id d, Task_user_id = user_id,
                                     Task_title = title, Task_due_date = due,
                                     Task_note = note, Task_done = False,
                                     Task_created_at = now\<rparr>
                            in (d\<lparr>tasks := tasks d @ [t],
                                  next_task_id := Suc (next_task_id d)\<rparr>,
                                sess, Jsonify ok_true 200))
                       | _ \<Rightarrow> (d, sess, InternalServerError))
                  | _ \<Rightarrow> (d, sess, InternalServerError))))"

definition add_task :: "env \<Rightarrow> nat \<Rightarrow> json option \<Rightarrow> db \<Rightarrow> session \<Rightarrow> result" where
  "add_task e now body = login_required (add_task_view e now body)"

text \<open>
  \<open>delete_task\<close> and \<open>toggle_task\<close>.  The commit deletes, or updates, by primary key
  the row that the query returned.
\<close>

definition delete_task_view :: "nat \<Rightarrow> db \<Rightarrow> session \<Rightarrow> result" where
  "delete_task_view task_id d sess =
     (case sess of
        None \<Rightarrow> (d, sess, InternalServerError)
      | Some user_id \<Rightarrow>
          (case task_by_id_and_user d task_id user_id of
             None \<Rightarrow> (d, sess, Jsonify (error_json ''not found'') 404)
           | Some t \<Rightarrow>
               (d\<lparr>tasks := filter (\<lambda>r. Task_id r \<noteq> Task_id t) (tasks d)\<rparr>,
                sess, Jsonify ok_true 200)))"

definition delete_task :: "nat \<Rightarrow> db \<Rightarrow> session \<Rightarrow> result" where
  "delete_task task_id = login_required (delete_task_view task_id)"

definition toggle_task_view :: "nat \<Rightarrow> db \<Rightarrow> session \<Rightarrow> result" where
  "toggle_task_view task_id d sess =
     (case sess of
        None \<Rightarrow> (d, sess, InternalServerError)
      | Some user_id \<Rightarrow>
          (case task_by_id_and_user d task_id user_id of
             None \<Rightarrow> (d, sess, Jsonify (error_json ''not found'') 404)
           | Some t \<Rightarrow>
               (d\<lparr>tasks := map (\<lambda>r. if Task_id r = Task_id t
                                       then r\<lparr>Task_done := \<not> Task_done t\<rparr> else r)
                                (tasks d)\<rparr>,
                sess, Jsonify ok_true 200)))"

definition toggle_task :: "nat \<Rightarrow> db \<Rightarrow> session \<Rightarrow> result" where
  "toggle_task task_id = login_required (toggle_task_view task_id)"

section \<open>Routing and runs\<close>

text \<open>
  The requests the routes of the source accept.  \<open>/delete/<int:task_id>\<close> and
  \<open>/toggle/<int:task_id>\<close> only match a sequence of digits, so the id is a natural
  number.  A registration carries the salt its password hash will use.
\<close>

datatype request =
    Req_register http_method form_data pystr
  | Req_login http_method form_data
  | Req_logout
  | Req_index
  | Req_tasks
  | Req_add "json option"
  | Req_delete nat
  | Req_toggle nat

definition dispatch :: "env \<Rightarrow> nat \<Rightarrow> request \<Rightarrow> db \<Rightarrow> session \<Rightarrow> result" where
  "dispatch e now rq d sess =
     (case rq of
        Req_register m f salt \<Rightarrow> register e now salt m f d sess
      | Req_login m f \<Rightarrow> login e m f d sess
      | Req_logout \<Rightarrow> logout d sess
      | Req_index \<Rightarrow> index d sess
      | Req_tasks \<Rightarrow> tasks_api e d sess
      | Req_add body \<Rightarrow> add_task e now body d sess
      | Req_delete task_id \<Rightarrow> delete_task task_id d sess
      | Req_toggle task_id \<Rightarrow> toggle_task task_id d sess)"

text \<open>
  A run: requests served one after the other, each with the time of its arrival and
  the session its cookie carries.  Only the database goes from one request to the next.
\<close>

fun run :: "env \<Rightarrow> (nat \<times> session \<times> request) list \<Rightarrow> db \<Rightarrow> db" where
  "run e [] d = d"
| "run e ((now, sess, rq) # rest) d = run e rest (fst (dispatch e now rq d sess))"

text \<open>
  What every run keeps of the task table: the ids grow in the order of insertion and
  stay below the counter.
\<close>

definition ids_inv :: "db \<Rightarrow> bool" where
  "ids_inv d =
     (sorted_wrt (\<lambda>a b. Task_id a < Task_id b) (tasks d)
      \<and> list_all (\<lambda>t. Task_id t < next_task_id d) (tasks d))"

text \<open>
  What a run keeps in addition when the clock does not go back: the times of creation
  do not decrease in the order of insertion, and none is later than the clock.
\<close>

definition clock_inv :: "nat \<Rightarrow> db \<Rightarrow> bool" where
  "clock_inv clock d =
     (sorted_wrt (\<lambda>a b. Task_created_at a \<le> Task_created_at b) (tasks d)
      \<and> list_all (\<lambda>t. Task_created_at t \<le> clock) (tasks d))"

section \<open>Auxiliary definitions for the statements\<close>

text \<open>What a browser posts from the login and registration pages.\<close>

definition credentials :: "pystr \<Rightarrow> pystr \<Rightarrow> form_data" where
  "credentials username password =
     [py ''username'' \<mapsto> username, py ''password'' \<mapsto> password]"

text \<open>
  The format that the comment on \<open>Task.due_date\<close> names, \<open>YYYY-MM-DD\<close>: four digits,
  a hyphen, two digits, a hyphen, two digits.
\<close>

definition isdigit :: "nat \<Rightarrow> bool" where
  "isdigit c = (48 \<le> c \<and> c \<le> 57)"

definition iso_date :: "pystr \<Rightarrow> bool" where
  "iso_date s =
     (length s = 10 \<and> list_all isdigit (take 4 s) \<and> s ! 4 = 45
      \<and> list_all isdigit (take 2 (drop 5 s)) \<and> s ! 7 = 45 \<and> list_all isdigit (drop 8 s))"

text \<open>
  A status that reports a failed authorization: 401 (Unauthorized) or 403 (Forbidden).
\<close>

definition authorization_failure :: "response \<Rightarrow> bool" where
  "authorization_failure r = (status_code r = 401 \<or> status_code r = 403)"

text \<open>
  A concrete environment on which the routes can be evaluated: the hash is the salt
  followed by the password, and the driver rejects every value that is not a string.
\<close>

definition demo_env :: env where
  "demo_env =
     \<lparr>generate_password_hash = (\<lambda>salt password. salt @ password),
      check_password_hash = (\<lambda>h password. drop (length h - length password) h = password),
      isoformat = (\<lambda>t. [t]),
      bind_text = (\<lambda>j. None)\<rparr>"

text \<open>
  An example run on that environment: alice registers and adds a task, bob registers
  and adds one, alice adds a second task within the same tick of the clock and then
  marks her first one as done.
\<close>

definition demo_run :: "(nat \<times> session \<times> request) list" where
  "demo_run =
     [(1, None, Req_register POST (credentials (py ''alice'') (py ''secret123'')) (py ''s1'')),
      (2, Some 1, Req_add (Some (JObj [(py ''title'', JStr (py ''Buy milk''))]))),
      (3, None, Req_register POST (credentials (py '' bob '') (py ''hunter2'')) (py ''s2'')),
      (4, Some 2, Req_add (Some (JObj [(py ''title'', JStr (py ''Call mum'')),
                                       (py ''note'', JStr (py ''after six''))]))),
      (4, Some 1, Req_add (Some (JObj [(py ''title'', JStr (py '' Pay rent '')),
                                       (py ''due_date'', JStr (py ''2024-05-01'')),
                                       (py ''note'', JStr [])]))),
      (5, Some 1, Req_toggle 1)]"

definition demo_db :: db where
  "demo_db = run demo_env demo_run empty_db"

text \<open>Two registrations on the database of the example run.\<close>

definition carol_db :: db where
  "carol_db =
     fst (register demo_env 6 (py ''s3'') POST (credentials (py '' carol'') (py ''pw1''))
            demo_db None)"

definition dave_db :: db where
  "dave_db =
     fst (register demo_env 6 (py ''s3'') POST (credentials (py ''dave '') (py '' ''))
            demo_db None)"

text \<open>One more task on the database of the example run, with an empty due date.\<close>

definition cat_db :: db where
  "cat_db =
     fst (add_task demo_env 6
            (Some (JObj [(py ''title'', JStr (py ''Feed cat'')), (py ''due_date'', JStr [])]))
            demo_db (Some 2))"

section \<open>Basic facts\<close>

lemmas view_defs = index_def tasks_api_def add_task_def delete_task_def toggle_task_def
  login_required_def

lemma py_eq_iff: "py s = py t \<longleftrightarrow> s = t"
  unfolding py_def by (simp add: inj_map_eq_map inj_on_def)

lemma strip_all_space: "list_all isspace s \<Longrightarrow> strip s = []"
proof -
  assume "list_all isspace s"
  then have blank: "dropWhile isspace s = []"
    by (induction s) simp_all
  show ?thesis unfolding strip_def blank by simp
qed

lemma find_snoc:
  "find P (xs @ [u]) =
     (case find P xs of Some v \<Rightarrow> Some v | None \<Rightarrow> if P u then Some u else None)"
  by (induction xs) simp_all

lemma find_map_same:
  assumes "\<And>x. P (g x) = P x"
  shows "find P (map g xs) = map_option g (find P xs)"
  by (induction xs) (simp_all add: assms)

subsection \<open>The example run\<close>

lemma demo_db_eq:
  "demo_db =
     \<lparr>users = [\<lparr>User_id = 1, User_username = py ''alice'',
                 User_password_hash = py ''s1secret123'', User_created_at = 1\<rparr>,
              \<lparr>User_id = 2, User_username = py ''bob'',
                 User_password_hash = py ''s2hunter2'', User_created_at = 3\<rparr>],
      tasks = [\<lparr>Task_id = 1, Task_user_id = 1, Task_title = py ''Buy milk'',
                 Task_due_date = None, Task_note = None, Task_done = True,
                 Task_created_at = 2\<rparr>,
               \<lparr>Task_id = 2, Task_user_id = 2, Task_title = py ''Call mum'',
                 Task_due_date = None, Task_note = Some (py ''after six''), Task_done = False,
                 Task_created_at = 4\<rparr>,
               \<lparr>Task_id = 3, Task_user_id = 1, Task_title = py ''Pay rent'',
                 Task_due_date = Some (py ''2024-05-01''), Task_note = None, Task_done = False,
                 Task_created_at = 4\<rparr>],
      next_user_id = 3, next_task_id = 4\<rparr>"
  by (simp add: demo_db_def demo_run_def demo_env_def empty_db_def dispatch_def view_defs
      register_def add_task_view_def toggle_task_view_def task_by_id_and_user_def
      user_by_username_def credentials_def form_get_or_empty_def data_get_def or_None_def
      or_empty_strip_def column_text_def strip_def isspace_def py_def Let_def)

section \<open>Session-required routes\<close>

text \<open>
  C1 (as the source has it).  A request without \<open>user_id\<close> in its session to any of
  the five routes behind \<open>login_required\<close>, the page \<open>/\<close> and the API routes
  \<open>/tasks\<close>, \<open>/add\<close>, \<open>/delete/{id}\<close> and \<open>/toggle/{id}\<close> alike, is answered by a
  redirect to the login page; the view is not run, and the database and the session
  are as before.
\<close>

theorem login_required_redirects_without_session:
  "index d None = (d, None, Redirect Login)
   \<and> tasks_api e d None = (d, None, Redirect Login)
   \<and> add_task e now body d None = (d, None, Redirect Login)
   \<and> delete_task task_id d None = (d, None, Redirect Login)
   \<and> toggle_task task_id d None = (d, None, Redirect Login)"
  by (simp add: view_defs)

text \<open>
  C1 as stated asks of the API routes a response that reports the failed
  authorization.  \<open>/tasks\<close> without a session answers with the redirect (status 302),
  which is no such response.
\<close>

theorem tasks_api_without_session_no_authorization_failure:
  "status_code (snd (snd (dispatch demo_env 0 Req_tasks empty_db None))) = 302
   \<and> \<not> authorization_failure (snd (snd (dispatch demo_env 0 Req_tasks empty_db None)))"
  by (simp add: dispatch_def view_defs authorization_failure_def)

section \<open>The task list\<close>

lemma sorted_filter_ids:
  assumes "sorted_wrt (\<lambda>a b. Task_id a < Task_id b) xs"
  shows "sort_key Task_id (filter P xs) = filter P xs"
proof -
  have "sorted_wrt (\<lambda>a b. Task_id a \<le> Task_id b) xs"
    using assms by (rule sorted_wrt_mono_rel [rotated]) auto
  then have "sorted_wrt (\<lambda>a b. Task_id a \<le> Task_id b) (filter P xs)"
    by (rule sorted_wrt_filter)
  then have "sorted (map Task_id (filter P xs))"
    by (simp add: sorted_wrt_map)
  then show ?thesis by (rule sort_key_id_if_sorted)
qed

subsection \<open>What the routes do to the task table\<close>

lemma tasks_register: "tasks (fst (register e now salt m f d sess)) = tasks d"
  and next_task_id_register:
    "next_task_id (fst (register e now salt m f d sess)) = next_task_id d"
  by (simp_all add: register_def Let_def split: http_method.splits)

lemma fst_login: "fst (login e m f d sess) = d"
  by (simp add: login_def Let_def split: http_method.splits option.splits)

lemma add_task_cases:
  "fst (add_task e now body d sess) = d
   \<or> (\<exists>t. Task_id t = next_task_id d \<and> Task_created_at t = now
          \<and> tasks (fst (add_task e now body d sess)) = tasks d @ [t]
          \<and> next_task_id (fst (add_task e now body d sess)) = Suc (next_task_id d))"
  by (simp add: view_defs add_task_view_def Let_def
      split: sum.splits option.splits prod.splits)

lemma delete_task_cases:
  "\<exists>k. fst (delete_task task_id d sess) = d
     \<or> fst (delete_task task_id d sess) = d\<lparr>tasks := filter (\<lambda>r. Task_id r \<noteq> k) (tasks d)\<rparr>"
  by (auto simp: view_defs delete_task_view_def split: option.splits)

lemma toggle_task_cases:
  "\<exists>k b. fst (toggle_task task_id d sess) = d
     \<or> fst (toggle_task task_id d sess)
         = d\<lparr>tasks := map (\<lambda>r. if Task_id r = k then r\<lparr>Task_done := b\<rparr> else r) (tasks d)\<rparr>"
  by (auto simp: view_defs toggle_task_view_def split: option.splits)

lemma fst_read_only:
  "fst (logout d sess) = d" "fst (index d sess) = d" "fst (tasks_api e d sess) = d"
  by (simp_all add: logout_def view_defs index_view_def tasks_api_view_def split: option.splits)

subsection \<open>Ids\<close>

lemma ids_inv_empty: "ids_inv empty_db"
  by (simp add: ids_inv_def empty_db_def)

lemma ids_inv_dispatch:
  assumes "ids_inv d"
  shows "ids_inv (fst (dispatch e now rq d sess))"
proof (cases rq)
  case (Req_register m f salt)
  with assms show ?thesis
    by (simp add: dispatch_def ids_inv_def tasks_register next_task_id_register)
next
  case (Req_login m f)
  with assms show ?thesis by (simp add: dispatch_def fst_login)
next
  case (Req_add body)
  from add_task_cases [of e now body d sess] assms
  have "ids_inv (fst (add_task e now body d sess))"
    by (auto simp: ids_inv_def sorted_wrt_append list_all_iff less_Suc_eq)
  with Req_add show ?thesis by (simp add: dispatch_def)
next
  case (Req_delete k)
  from delete_task_cases [of k d sess] assms
  have "ids_inv (fst (delete_task k d sess))"
    by (auto simp: ids_inv_def list_all_iff intro: sorted_wrt_filter)
  with Req_delete show ?thesis by (simp add: dispatch_def)
next
  case (Req_toggle k)
  from toggle_task_cases [of k d sess] assms
  have "ids_inv (fst (toggle_task k d sess))"
    by (auto simp: ids_inv_def list_all_iff sorted_wrt_map
        elim!: sorted_wrt_mono_rel [rotated])
  with Req_toggle show ?thesis by (simp add: dispatch_def)
qed (use assms in \<open>simp_all add: dispatch_def fst_read_only\<close>)

lemma ids_inv_run: "ids_inv d \<Longrightarrow> ids_inv (run e evs d)"
proof (induction evs arbitrary: d)
  case Nil
  then show ?case by simp
next
  case (Cons ev evs)
  obtain now sess rq where ev: "ev = (now, sess, rq)" by (cases ev)
  from Cons.prems have "ids_inv (fst (dispatch e now rq d sess))" by (rule ids_inv_dispatch)
  then show ?case unfolding ev run.simps by (rule Cons.IH)
qed

subsection \<open>Times of creation\<close>

lemma clock_inv_empty: "clock_inv clock empty_db"
  by (simp add: clock_inv_def empty_db_def)

lemma clock_inv_mono: "clock_inv clock d \<Longrightarrow> clock \<le> clock' \<Longrightarrow> clock_inv clock' d"
  by (auto simp: clock_inv_def list_all_iff)

lemma clock_inv_dispatch:
  assumes "clock_inv now d"
  shows "clock_inv now (fst (dispatch e now rq d sess))"
proof (cases rq)
  case (Req_register m f salt)
  with assms show ?thesis
    by (simp add: dispatch_def clock_inv_def tasks_register)
next
  case (Req_login m f)
  with assms show ?thesis by (simp add: dispatch_def fst_login)
next
  case (Req_add body)
  from add_task_cases [of e now body d sess] assms
  have "clock_inv now (fst (add_task e now body d sess))"
    by (auto simp: clock_inv_def sorted_wrt_append list_all_iff)
  with Req_add show ?thesis by (simp add: dispatch_def)
next
  case (Req_delete k)
  from delete_task_cases [of k d sess] assms
  have "clock_inv now (fst (delete_task k d sess))"
    by (auto simp: clock_inv_def list_all_iff intro: sorted_wrt_filter)
  with Req_delete show ?thesis by (simp add: dispatch_def)
next
  case (Req_toggle k)
  from toggle_task_cases [of k d sess] assms
  have "clock_inv now (fst (toggle_task k d sess))"
    by (auto simp: clock_inv_def list_all_iff sorted_wrt_map
        elim!: sorted_wrt_mono_rel [rotated])
  with Req_toggle show ?thesis by (simp add: dispatch_def)
qed (use assms in \<open>simp_all add: dispatch_def fst_read_only\<close>)

lemma clock_inv_run:
  assumes "clock_inv clock d" "sorted (clock # map fst evs)"
  shows "clock_inv (last (clock # map fst evs)) (run e evs d)"
  using assms
proof (induction evs arbitrary: clock d)
  case Nil
  then show ?case by simp
next
  case (Cons ev evs)
  obtain now sess rq where ev: "ev = (now, sess, rq)" by (cases ev)
  from Cons.prems have "clock \<le> now" and rest: "sorted (now # map fst evs)"
    by (auto simp: ev)
  with Cons.prems(1) have "clock_inv now d" by (blast intro: clock_inv_mono)
  then have "clock_inv now (fst (dispatch e now rq d sess))" by (rule clock_inv_dispatch)
  from Cons.IH [OF this rest] show ?case by (simp add: ev)
qed

subsection \<open>The order of the list\<close>

lemma sorted_wrt_conj:
  "sorted_wrt P xs \<Longrightarrow> sorted_wrt Q xs \<Longrightarrow> sorted_wrt (\<lambda>a b. P a b \<and> Q a b) xs"
  by (induction xs) auto

lemma tasks_of_user_rev:
  assumes "ids_inv d"
  shows "tasks_of_user d user_id = rev (filter (\<lambda>t. Task_user_id t = user_id) (tasks d))"
  using assms by (simp add: tasks_of_user_def ids_inv_def sorted_filter_ids)

lemma ids_descending:
  assumes "ids_inv d"
  shows "sorted_wrt (\<lambda>a b. Task_id b < Task_id a) (tasks_of_user d user_id)"
proof -
  from assms have "sorted_wrt (\<lambda>a b. Task_id a < Task_id b)
                     (filter (\<lambda>t. Task_user_id t = user_id) (tasks d))"
    unfolding ids_inv_def by (blast intro: sorted_wrt_filter)
  then show ?thesis
    unfolding tasks_of_user_rev [OF assms] by (simp add: sorted_wrt_rev)
qed

lemma newest_first:
  assumes "ids_inv d" and "clock_inv clock d"
  shows "sorted_wrt (\<lambda>a b. Task_created_at b < Task_created_at a
            \<or> Task_created_at b = Task_created_at a \<and> Task_id b < Task_id a)
          (tasks_of_user d user_id)"
proof -
  let ?P = "\<lambda>t. Task_user_id t = user_id"
  from assms have "sorted_wrt (\<lambda>a b. Task_id a < Task_id b) (tasks d)"
    and "sorted_wrt (\<lambda>a b. Task_created_at a \<le> Task_created_at b) (tasks d)"
    by (simp_all add: ids_inv_def clock_inv_def)
  then have "sorted_wrt (\<lambda>a b. Task_id a < Task_id b \<and> Task_created_at a \<le> Task_created_at b)
               (tasks d)"
    by (rule sorted_wrt_conj)
  then have "sorted_wrt (\<lambda>a b. Task_id a < Task_id b \<and> Task_created_at a \<le> Task_created_at b)
               (filter ?P (tasks d))"
    by (rule sorted_wrt_filter)
  then have "sorted_wrt (\<lambda>a b. Task_id b < Task_id a \<and> Task_created_at b \<le> Task_created_at a)
               (rev (filter ?P (tasks d)))"
    by (simp add: sorted_wrt_rev)
  then show ?thesis
    unfolding tasks_of_user_rev [OF assms(1)] by (rule sorted_wrt_mono_rel [rotated]) auto
qed

lemma mset_tasks_of_user:
  "mset (tasks_of_user d user_id)
     = filter_mset (\<lambda>t. Task_user_id t = user_id) (mset (tasks d))"
  by (simp add: tasks_of_user_def)

text \<open>
  C2.  In a database that a run of requests has produced from the empty one, \<open>/tasks\<close>
  answers a logged-in caller with the dicts of exactly the tasks whose \<open>user_id\<close> is
  the caller's (each one once, and none of another user).  They come in the reverse of
  the order of their creation, the most recently created first, with strictly
  descending ids; and when the clock never went back between the requests of the
  run, a task comes before every task with an earlier time of creation, and of two
  tasks created at the same time the one with the greater id comes first.
\<close>

theorem tasks_api_own_tasks_newest_first:
  assumes "d = run e evs empty_db"
  shows "tasks_api e d (Some user_id)
           = (d, Some user_id, Jsonify (JArr (map (task_dict e) (tasks_of_user d user_id))) 200)
       \<and> mset (tasks_of_user d user_id)
           = filter_mset (\<lambda>t. Task_user_id t = user_id) (mset (tasks d))
       \<and> (\<forall>t \<in> set (tasks_of_user d user_id). Task_user_id t = user_id)
       \<and> tasks_of_user d user_id = rev (filter (\<lambda>t. Task_user_id t = user_id) (tasks d))
       \<and> sorted_wrt (\<lambda>a b. Task_id b < Task_id a) (tasks_of_user d user_id)
       \<and> (sorted (map fst evs) \<longrightarrow>
            sorted_wrt (\<lambda>a b. Task_created_at b < Task_created_at a
                \<or> Task_created_at b = Task_created_at a \<and> Task_id b < Task_id a)
              (tasks_of_user d user_id))"
proof (intro conjI impI)
  have ids: "ids_inv d"
    unfolding assms using ids_inv_empty by (rule ids_inv_run)
  show "tasks_api e d (Some user_id)
           = (d, Some user_id, Jsonify (JArr (map (task_dict e) (tasks_of_user d user_id))) 200)"
    by (simp add: view_defs tasks_api_view_def)
  show "mset (tasks_of_user d user_id)
           = filter_mset (\<lambda>t. Task_user_id t = user_id) (mset (tasks d))"
    by (rule mset_tasks_of_user)
  show "\<forall>t \<in> set (tasks_of_user d user_id). Task_user_id t = user_id"
    by (simp add: tasks_of_user_def)
  show "tasks_of_user d user_id = rev (filter (\<lambda>t. Task_user_id t = user_id) (tasks d))"
    using ids by (rule tasks_of_user_rev)
  show "sorted_wrt (\<lambda>a b. Task_id b < Task_id a) (tasks_of_user d user_id)"
    using ids by (rule ids_descending)
  assume "sorted (map fst evs)"
  then have "sorted (0 # map fst evs)" by simp
  with clock_inv_empty have "clock_inv (last (0 # map fst evs)) d"
    unfolding assms by (rule clock_inv_run)
  with ids show "sorted_wrt (\<lambda>a b. Task_created_at b < Task_created_at a
                \<or> Task_created_at b = Task_created_at a \<and> Task_id b < Task_id a)
              (tasks_of_user d user_id)"
    by (rule newest_first)
qed

theorem tasks_api_own_tasks_newest_first_witness:
  "sorted (map fst demo_run)
   \<and> tasks_api demo_env demo_db (Some 1)
       = (demo_db, Some 1,
          Jsonify (JArr (map (task_dict demo_env) (tasks_of_user demo_db 1))) 200)
   \<and> map (\<lambda>t. (Task_created_at t, Task_id t, Task_user_id t)) (tasks_of_user demo_db 1)
       = [(4, 3, 1), (2, 1, 1)]
   \<and> map (\<lambda>t. (Task_created_at t, Task_id t, Task_user_id t)) (tasks_of_user demo_db 2)
       = [(4, 2, 2)]"
proof -
  have s: "sorted (map fst demo_run)" by (simp add: demo_run_def)
  have rows: "map (\<lambda>t. (Task_created_at t, Task_id t, Task_user_id t)) (tasks_of_user demo_db 1)
       = [(4, 3, 1), (2, 1, 1)]"
    "map (\<lambda>t. (Task_created_at t, Task_id t, Task_user_id t)) (tasks_of_user demo_db 2)
       = [(4, 2, 2)]"
    by (simp_all add: demo_db_eq tasks_of_user_def)
  note listed = tasks_api_own_tasks_newest_first [OF demo_db_def, of 1]
  from listed have "tasks_api demo_env demo_db (Some 1)
       = (demo_db, Some 1,
          Jsonify (JArr (map (task_dict demo_env) (tasks_of_user demo_db 1))) 200)"
    by (rule conjunct1)
  with s rows show ?thesis by (intro conjI)
qed

section \<open>Toggle and delete\<close>

lemma task_query_None:
  "task_by_id_and_user d task_id user_id = None
   \<longleftrightarrow> \<not> (\<exists>t \<in> set (tasks d). Task_id t = task_id \<and> Task_user_id t = user_id)"
  by (auto simp: task_by_id_and_user_def find_None_iff)

text \<open>
  C3.  When no task with the given id belongs to the caller, \<open>/toggle/{id}\<close> and
  \<open>/delete/{id}\<close> both answer 404 with \<open>{"error": "not found"}\<close> and leave the
  database as it was.  The answer is the same whether the id exists under another
  owner or not at all.
\<close>

theorem toggle_delete_not_owned_not_found:
  assumes "\<not> (\<exists>t \<in> set (tasks d). Task_id t = task_id \<and> Task_user_id t = user_id)"
  shows "toggle_task task_id d (Some user_id)
           = (d, Some user_id, Jsonify (error_json ''not found'') 404)
       \<and> delete_task task_id d (Some user_id)
           = (d, Some user_id, Jsonify (error_json ''not found'') 404)"
  using assms task_query_None [of d task_id user_id]
  by (simp add: view_defs toggle_task_view_def delete_task_view_def)

theorem toggle_delete_not_owned_not_found_witness:
  "map (\<lambda>t. (Task_id t, Task_user_id t)) (tasks demo_db) = [(1, 1), (2, 2), (3, 1)]
   \<and> toggle_task 1 demo_db (Some 2) = (demo_db, Some 2, Jsonify (error_json ''not found'') 404)
   \<and> delete_task 1 demo_db (Some 2) = (demo_db, Some 2, Jsonify (error_json ''not found'') 404)
   \<and> toggle_task 9 demo_db (Some 2) = toggle_task 1 demo_db (Some 2)
   \<and> delete_task 9 demo_db (Some 2) = delete_task 1 demo_db (Some 2)"
proof -
  have other: "\<not> (\<exists>t \<in> set (tasks demo_db). Task_id t = 1 \<and> Task_user_id t = 2)"
    and absent: "\<not> (\<exists>t \<in> set (tasks demo_db). Task_id t = 9 \<and> Task_user_id t = 2)"
    and "map (\<lambda>t. (Task_id t, Task_user_id t)) (tasks demo_db) = [(1, 1), (2, 2), (3, 1)]"
    by (simp_all add: demo_db_eq)
  with toggle_delete_not_owned_not_found [OF other]
    toggle_delete_not_owned_not_found [OF absent]
  show ?thesis by simp
qed

lemma toggle_found:
  assumes "task_by_id_and_user d task_id user_id = Some t"
  shows "toggle_task task_id d (Some user_id) =
           (d\<lparr>tasks := map (\<lambda>r. if Task_id r = Task_id t
                                   then r\<lparr>Task_done := \<not> Task_done t\<rparr> else r)
                          (tasks d)\<rparr>,
            Some user_id, Jsonify ok_true 200)"
    and "task_by_id_and_user (fst (toggle_task task_id d (Some user_id))) task_id user_id
           = Some (t\<lparr>Task_done := \<not> Task_done t\<rparr>)"
proof -
  show eq: "toggle_task task_id d (Some user_id) =
           (d\<lparr>tasks := map (\<lambda>r. if Task_id r = Task_id t
                                   then r\<lparr>Task_done := \<not> Task_done t\<rparr> else r)
                          (tasks d)\<rparr>,
            Some user_id, Jsonify ok_true 200)"
    using assms by (simp add: view_defs toggle_task_view_def)
  from assms have "Task_id t = task_id"
    by (auto simp: task_by_id_and_user_def find_Some_iff)
  with assms show "task_by_id_and_user (fst (toggle_task task_id d (Some user_id))) task_id user_id
           = Some (t\<lparr>Task_done := \<not> Task_done t\<rparr>)"
    unfolding eq by (simp add: task_by_id_and_user_def find_map_same)
qed

text \<open>
  C6.  For a task \<open>t\<close> of the caller, \<open>/toggle/{id}\<close> succeeds twice in a row; after
  the first call the task's \<open>done\<close> is the negation of what it was, and after the
  second the caller's task with that id is \<open>t\<close> again, so \<open>done\<close> has its original
  value.
\<close>

theorem toggle_task_twice_restores:
  assumes "task_by_id_and_user d task_id user_id = Some t"
    and "d1 = fst (toggle_task task_id d (Some user_id))"
    and "d2 = fst (toggle_task task_id d1 (Some user_id))"
  shows "toggle_task task_id d (Some user_id) = (d1, Some user_id, Jsonify ok_true 200)
       \<and> map_option Task_done (task_by_id_and_user d1 task_id user_id) = Some (\<not> Task_done t)
       \<and> toggle_task task_id d1 (Some user_id) = (d2, Some user_id, Jsonify ok_true 200)
       \<and> task_by_id_and_user d2 task_id user_id = Some t
       \<and> map_option Task_done (task_by_id_and_user d2 task_id user_id) = Some (Task_done t)"
proof -
  have q1: "task_by_id_and_user d1 task_id user_id = Some (t\<lparr>Task_done := \<not> Task_done t\<rparr>)"
    unfolding assms(2) using assms(1) by (rule toggle_found(2))
  have "task_by_id_and_user d2 task_id user_id
          = Some (t\<lparr>Task_done := \<not> Task_done t,
                    Task_done := \<not> Task_done (t\<lparr>Task_done := \<not> Task_done t\<rparr>)\<rparr>)"
    unfolding assms(3) using toggle_found(2) [OF q1] by simp
  then have q2: "task_by_id_and_user d2 task_id user_id = Some t" by simp
  show ?thesis
    using toggle_found(1) [OF assms(1)] toggle_found(1) [OF q1] q1 q2
    by (simp add: assms(2,3))
qed

theorem toggle_task_twice_restores_witness:
  "map_option Task_done (task_by_id_and_user demo_db 3 1) = Some False
   \<and> map_option Task_done
        (task_by_id_and_user (fst (toggle_task 3 demo_db (Some 1))) 3 1) = Some True
   \<and> map_option Task_done
        (task_by_id_and_user
           (fst (toggle_task 3 (fst (toggle_task 3 demo_db (Some 1))) (Some 1))) 3 1)
       = Some False
   \<and> snd (toggle_task 3 (fst (toggle_task 3 demo_db (Some 1))) (Some 1))
       = (Some 1, Jsonify ok_true 200)"
proof -
  have q: "task_by_id_and_user demo_db 3 1
             = Some \<lparr>Task_id = 3, Task_user_id = 1, Task_title = py ''Pay rent'',
                   Task_due_date = Some (py ''2024-05-01''), Task_note = None,
                   Task_done = False, Task_created_at = 4\<rparr>"
    by (simp add: demo_db_eq task_by_id_and_user_def)
  note twice = toggle_task_twice_restores [OF q refl refl]
  from twice have "snd (toggle_task 3 (fst (toggle_task 3 demo_db (Some 1))) (Some 1))
       = (Some 1, Jsonify ok_true 200)"
    by (metis snd_conv)
  with twice q show ?thesis by simp
qed

section \<open>Registration and login\<close>

lemma credentials_get:
  "form_get_or_empty (credentials username password) (py ''username'') = username"
  "form_get_or_empty (credentials username password) (py ''password'') = password"
  by (simp_all add: form_get_or_empty_def credentials_def py_eq_iff)

lemma user_by_username_append:
  "user_by_username (d\<lparr>users := users d @ [u], next_user_id := n\<rparr>) name =
     (case user_by_username d name of
        Some v \<Rightarrow> Some v
      | None \<Rightarrow> if User_username u = name then Some u else None)"
  by (simp add: user_by_username_def find_snoc)

lemma register_new:
  assumes "strip username \<noteq> []" "password \<noteq> []" "user_by_username d (strip username) = None"
  shows "register e now salt POST (credentials username password) d sess =
           (d\<lparr>users := users d @ [\<lparr>User_id = next_user_id d, User_username = strip username,
                  User_password_hash = generate_password_hash e salt password,
                  User_created_at = now\<rparr>],
              next_user_id := Suc (next_user_id d)\<rparr>,
            Some (next_user_id d), Redirect Index)"
  using assms by (simp add: register_def credentials_get Let_def)

lemma register_taken:
  assumes "strip username \<noteq> []" "password \<noteq> []" "user_by_username d (strip username) \<noteq> None"
  shows "register e now salt POST (credentials username password) d sess =
           (d, sess, Render (REGISTER_HTML (Some (py ''Username already taken''))))"
  using assms by (simp add: register_def credentials_get Let_def)

lemma login_new:
  assumes "user_by_username d (strip username) = None"
    and "check_password_hash e h password"
  shows "login e POST (credentials username password)
           (d\<lparr>users := users d @ [\<lparr>User_id = i, User_username = strip username,
                  User_password_hash = h, User_created_at = now\<rparr>],
              next_user_id := n\<rparr>) sess0 =
           (d\<lparr>users := users d @ [\<lparr>User_id = i, User_username = strip username,
                  User_password_hash = h, User_created_at = now\<rparr>],
              next_user_id := n\<rparr>, Some i, Redirect Index)"
  using assms by (simp add: login_def credentials_get Let_def user_by_username_append)

text \<open>
  C4.  Take a username that is not empty after \<open>strip\<close> and a password that is not
  empty, and let werkzeug's check accept a password against the hash generated from
  it.  After \<open>register\<close> has been posted with them: if the username was not taken
  before, the registration succeeded (redirect to the main page, session bound to the
  new user) and \<open>login\<close> with the same credentials succeeds for that user; and in any
  case a further \<open>register\<close> with this username and any non-empty password is refused
  with "Username already taken" and changes nothing.
\<close>

theorem register_then_login_and_duplicate:
  assumes "strip username \<noteq> []" and "password \<noteq> []" and "password2 \<noteq> []"
    and "check_password_hash e (generate_password_hash e salt password) password"
    and "register e now salt POST (credentials username password) d sess = (d', sess', r)"
  shows "(user_by_username d (strip username) = None \<longrightarrow>
            r = Redirect Index
            \<and> (\<exists>u. user_by_username d' (strip username) = Some u \<and> sess' = Some (User_id u)
                  \<and> login e POST (credentials username password) d' sess0
                      = (d', Some (User_id u), Redirect Index)))
       \<and> register e now2 salt2 POST (credentials username password2) d' sess2
           = (d', sess2, Render (REGISTER_HTML (Some (py ''Username already taken''))))"
proof (cases "user_by_username d (strip username)")
  case None
  note reg = register_new [OF assms(1,2) None, of e now salt sess]
  with assms(5) have d': "d' = d\<lparr>users := users d @ [\<lparr>User_id = next_user_id d,
        User_username = strip username,
        User_password_hash = generate_password_hash e salt password,
        User_created_at = now\<rparr>], next_user_id := Suc (next_user_id d)\<rparr>"
    and s': "sess' = Some (next_user_id d)" and r: "r = Redirect Index"
    by simp_all
  have found: "user_by_username d' (strip username) = Some \<lparr>User_id = next_user_id d,
        User_username = strip username,
        User_password_hash = generate_password_hash e salt password,
        User_created_at = now\<rparr>"
    unfolding d' by (simp add: user_by_username_append None)
  have "login e POST (credentials username password) d' sess0
          = (d', Some (next_user_id d), Redirect Index)"
    unfolding d' using None assms(4) by (rule login_new)
  moreover have "register e now2 salt2 POST (credentials username password2) d' sess2
           = (d', sess2, Render (REGISTER_HTML (Some (py ''Username already taken''))))"
    using assms(1,3) found by (intro register_taken) simp_all
  ultimately show ?thesis using found s' r by simp
next
  case (Some v)
  then have taken: "user_by_username d (strip username) \<noteq> None" by simp
  from register_taken [OF assms(1,2) taken, of e now salt sess] assms(5)
  have "d' = d" by simp
  with taken assms(1,3) Some show ?thesis
    by (simp add: register_taken)
qed

theorem register_then_login_and_duplicate_witness:
  "strip (py '' carol'') = py ''carol''
   \<and> user_by_username demo_db (py ''carol'') = None
   \<and> check_password_hash demo_env
        (generate_password_hash demo_env (py ''s3'') (py ''pw1'')) (py ''pw1'')
   \<and> register demo_env 6 (py ''s3'') POST (credentials (py '' carol'') (py ''pw1'')) demo_db None
       = (carol_db, Some 3, Redirect Index)
   \<and> login demo_env POST (credentials (py '' carol'') (py ''pw1'')) carol_db None
       = (carol_db, Some 3, Redirect Index)
   \<and> register demo_env 7 (py ''s4'') POST (credentials (py '' carol'') (py ''pw2'')) carol_db
        (Some 1)
       = (carol_db, Some 1, Render (REGISTER_HTML (Some (py ''Username already taken''))))"
proof -
  have name: "strip (py '' carol'') = py ''carol''"
    by (simp add: strip_def isspace_def py_def)
  have valid: "strip (py '' carol'') \<noteq> []" "py ''pw1'' \<noteq> []" "py ''pw2'' \<noteq> []"
    by (simp_all add: name) (simp_all add: py_def)
  have fresh: "user_by_username demo_db (py ''carol'') = None"
    by (simp add: demo_db_eq user_by_username_def py_eq_iff)
  have hash: "check_password_hash demo_env
        (generate_password_hash demo_env (py ''s3'') (py ''pw1'')) (py ''pw1'')"
    by (simp add: demo_env_def)
  have reg: "register demo_env 6 (py ''s3'') POST (credentials (py '' carol'') (py ''pw1''))
               demo_db None = (carol_db, Some 3, Redirect Index)"
    using register_new [OF valid(1,2), of demo_db demo_env 6 "py ''s3''" None] fresh
    by (simp add: carol_db_def name) (simp add: demo_db_eq)
  from register_then_login_and_duplicate [OF valid hash reg, of None 7 "py ''s4''" "Some 1"]
    name fresh hash reg
  show ?thesis by auto
qed

text \<open>
  C10.  \<open>register\<close> strips the username only.  With a username that is not empty
  after \<open>strip\<close> and not taken, and a password that is not empty but consists of
  whitespace alone (so stripping it would leave nothing), registration succeeds, the
  stored hash is the one of the password as posted, and \<open>login\<close> with that same
  password succeeds, given that werkzeug's check accepts a password against the hash
  generated from it.
\<close>

theorem register_keeps_whitespace_password:
  assumes "strip username \<noteq> []" and "user_by_username d (strip username) = None"
    and "password \<noteq> []" and "list_all isspace password"
    and "check_password_hash e (generate_password_hash e salt password) password"
    and "d' = d\<lparr>users := users d @ [\<lparr>User_id = next_user_id d, User_username = strip username,
                  User_password_hash = generate_password_hash e salt password,
                  User_created_at = now\<rparr>],
              next_user_id := Suc (next_user_id d)\<rparr>"
  shows "strip password = []
       \<and> register e now salt POST (credentials username password) d sess
           = (d', Some (next_user_id d), Redirect Index)
       \<and> login e POST (credentials username password) d' sess0
           = (d', Some (next_user_id d), Redirect Index)"
  using assms(4) register_new [OF assms(1,3,2), of e now salt sess]
    login_new [OF assms(2,5), where i = "next_user_id d" and now = now
      and n = "Suc (next_user_id d)" and ?sess0.0 = sess0]
  by (simp add: strip_all_space assms(6))

theorem register_keeps_whitespace_password_witness:
  "strip (py ''dave '') = py ''dave'' \<and> strip (py '' '') = []
   \<and> user_by_username demo_db (py ''dave'') = None
   \<and> register demo_env 6 (py ''s3'') POST (credentials (py ''dave '') (py '' '')) demo_db None
       = (dave_db, Some 3, Redirect Index)
   \<and> map User_password_hash (users dave_db) = [py ''s1secret123'', py ''s2hunter2'', py ''s3 '']
   \<and> login demo_env POST (credentials (py ''dave '') (py '' '')) dave_db None
       = (dave_db, Some 3, Redirect Index)"
proof -
  have name: "strip (py ''dave '') = py ''dave''"
    by (simp add: strip_def isspace_def py_def)
  have valid: "strip (py ''dave '') \<noteq> []" "py '' '' \<noteq> []"
    by (simp_all add: name) (simp_all add: py_def)
  have blank: "list_all isspace (py '' '')"
    by (simp add: isspace_def py_def)
  have fresh: "user_by_username demo_db (py ''dave'') = None"
    by (simp add: demo_db_eq user_by_username_def py_eq_iff)
  then have fresh': "user_by_username demo_db (strip (py ''dave '')) = None"
    by (simp add: name)
  have hash: "check_password_hash demo_env
        (generate_password_hash demo_env (py ''s3'') (py '' '')) (py '' '')"
    by (simp add: demo_env_def)
  have d': "dave_db = demo_db\<lparr>users := users demo_db @ [\<lparr>User_id = next_user_id demo_db,
                  User_username = strip (py ''dave ''),
                  User_password_hash = generate_password_hash demo_env (py ''s3'') (py '' ''),
                  User_created_at = 6\<rparr>],
              next_user_id := Suc (next_user_id demo_db)\<rparr>"
    using register_new [OF valid fresh', of demo_env 6 "py ''s3''" None]
    by (simp add: dave_db_def)
  have hashes: "map User_password_hash (users dave_db)
                  = [py ''s1secret123'', py ''s2hunter2'', py ''s3 '']"
    unfolding d' by (simp add: demo_db_eq demo_env_def py_def)
  have n: "next_user_id demo_db = 3" by (simp add: demo_db_eq)
  from register_keeps_whitespace_password [OF valid(1) fresh' valid(2) blank hash d', of None None]
    name fresh hashes
  show ?thesis by (simp add: n)
qed

text \<open>
  C5.  A login that fails because no user has the username and a login that fails
  because the stored hash does not match the password get the same response: the
  login page with the message "Invalid credentials", status 200, with the session and
  the database unchanged.
\<close>

theorem login_failures_indistinguishable:
  assumes "user_by_username d (strip username1) = None"
    and "user_by_username d (strip username2) = Some user"
    and "\<not> check_password_hash e (User_password_hash user) password2"
  shows "login e POST (credentials username1 password1) d sess
           = (d, sess, Render (LOGIN_HTML (Some (py ''Invalid credentials''))))
       \<and> login e POST (credentials username2 password2) d sess
           = (d, sess, Render (LOGIN_HTML (Some (py ''Invalid credentials''))))"
  using assms by (simp add: login_def credentials_get Let_def)

theorem login_failures_indistinguishable_witness:
  "user_by_username demo_db (strip (py ''zed'')) = None
   \<and> map_option User_password_hash (user_by_username demo_db (strip (py ''alice '')))
       = Some (py ''s1secret123'')
   \<and> check_password_hash demo_env (py ''s1secret123'') (py ''secret124'') = False
   \<and> login demo_env POST (credentials (py ''zed'') (py ''secret124'')) demo_db None
       = (demo_db, None, Render (LOGIN_HTML (Some (py ''Invalid credentials''))))
   \<and> login demo_env POST (credentials (py ''alice '') (py ''secret124'')) demo_db None
       = login demo_env POST (credentials (py ''zed'') (py ''secret124'')) demo_db None"
proof -
  have unknown: "user_by_username demo_db (strip (py ''zed'')) = None"
    by (simp add: demo_db_eq user_by_username_def strip_def isspace_def py_def)
  have known: "user_by_username demo_db (strip (py ''alice ''))
                 = Some \<lparr>User_id = 1, User_username = py ''alice'',
                     User_password_hash = py ''s1secret123'', User_created_at = 1\<rparr>"
    by (simp add: demo_db_eq user_by_username_def strip_def isspace_def py_def)
  have wrong: "\<not> check_password_hash demo_env
                   (User_password_hash \<lparr>User_id = 1, User_username = py ''alice'',
                     User_password_hash = py ''s1secret123'', User_created_at = 1\<rparr>)
                   (py ''secret124'')"
    by (simp add: demo_env_def py_def)
  from login_failures_indistinguishable [OF unknown known wrong, of "py ''secret124''" None]
    unknown known wrong
  show ?thesis by simp
qed

section \<open>Adding a task\<close>

lemmas add_eval = view_defs add_task_view_def data_get_def or_None_def or_empty_strip_def
  column_text_def strip_def isspace_def py_def error_json_def ok_true_def demo_env_def

text \<open>
  C7.  When the posted JSON object has a string under \<open>title\<close> that is empty after
  \<open>strip\<close>, \<open>/add\<close> answers a logged-in caller with status 400 and the payload
  \<open>{"error": "empty"}\<close>, and the database is as before: no task is created.
\<close>

theorem add_task_blank_title_rejected:
  assumes "map_of kvs (py ''title'') = Some (JStr title)" and "strip title = []"
  shows "add_task e now (Some (JObj kvs)) d (Some user_id)
           = (d, Some user_id, Jsonify (error_json ''empty'') 400)"
proof -
  from assms(1) have "kvs \<noteq> []" by auto
  then have "data_get (Some (JObj kvs)) (py ''title'') = Inr (Some (JStr title))"
    by (simp add: data_get_def or_None_def assms(1))
  moreover have "or_empty_strip (Some (JStr title)) = Some []"
    using assms(2) by (simp add: or_empty_strip_def or_None_def strip_def)
  ultimately show ?thesis
    by (simp add: view_defs add_task_view_def)
qed

theorem add_task_blank_title_rejected_witness:
  "map_of [(py ''title'', JStr (py ''   '')), (py ''note'', JStr (py ''n''))] (py ''title'')
     = Some (JStr (py ''   ''))
   \<and> strip (py ''   '') = []
   \<and> add_task demo_env 6
         (Some (JObj [(py ''title'', JStr (py ''   '')), (py ''note'', JStr (py ''n''))]))
         demo_db (Some 1)
       = (demo_db, Some 1, Jsonify (JObj [(py ''error'', JStr (py ''empty''))]) 400)
   \<and> add_task demo_env 6 (Some (JObj [(py ''title'', JStr [])])) demo_db (Some 1)
       = (demo_db, Some 1, Jsonify (JObj [(py ''error'', JStr (py ''empty''))]) 400)"
proof -
  have t1: "map_of [(py ''title'', JStr (py ''   '')), (py ''note'', JStr (py ''n''))]
              (py ''title'') = Some (JStr (py ''   ''))"
    and t2: "map_of [(py ''title'', JStr [])] (py ''title'') = Some (JStr [])"
    by simp_all
  have b1: "strip (py ''   '') = []" and b2: "strip [] = []"
    by (simp_all add: strip_def isspace_def py_def)
  from add_task_blank_title_rejected [OF t1 b1, of demo_env 6 demo_db 1]
    add_task_blank_title_rejected [OF t2 b2, of demo_env 6 demo_db 1] t1 b1
  show ?thesis by (simp add: error_json_def)
qed

lemma column_text_empty:
  "v = None \<or> v = Some (JStr []) \<Longrightarrow> column_text e v = Some None"
  by (auto simp: column_text_def or_None_def)

text \<open>
  C9.  Whenever \<open>/add\<close> creates a task from the posted JSON object, the new row is
  appended to the table, and a \<open>due_date\<close> that is missing from the object or is the
  empty string is stored as no value (\<open>None\<close>, which is not the empty string); the
  same holds for \<open>note\<close>.
\<close>

theorem add_task_empty_optionals_stored_as_None:
  assumes "add_task e now (Some (JObj kvs)) d (Some user_id) = (d', sess', Jsonify ok_true 200)"
  shows "\<exists>t. tasks d' = tasks d @ [t]
       \<and> (map_of kvs (py ''due_date'') = None \<or> map_of kvs (py ''due_date'') = Some (JStr [])
            \<longrightarrow> Task_due_date t = None \<and> Task_due_date t \<noteq> Some [])
       \<and> (map_of kvs (py ''note'') = None \<or> map_of kvs (py ''note'') = Some (JStr [])
            \<longrightarrow> Task_note t = None \<and> Task_note t \<noteq> Some [])"
proof (cases "kvs = []")
  case True
  with assms show ?thesis
    by (simp add: view_defs add_task_view_def data_get_def or_None_def or_empty_strip_def
        strip_def error_json_def ok_true_def py_eq_iff)
next
  case False
  then have dg: "data_get (Some (JObj kvs)) k = Inr (map_of kvs k)" for k
    by (simp add: data_get_def or_None_def)
  from assms show ?thesis
    by (auto simp: view_defs add_task_view_def dg error_json_def ok_true_def py_eq_iff
        column_text_empty split: option.splits if_splits)
qed

theorem add_task_empty_optionals_stored_as_None_witness:
  "add_task demo_env 6
      (Some (JObj [(py ''title'', JStr (py ''Feed cat'')), (py ''due_date'', JStr [])]))
      demo_db (Some 2)
     = (cat_db, Some 2, Jsonify ok_true 200)
   \<and> tasks cat_db
     = tasks demo_db @ [\<lparr>Task_id = 4, Task_user_id = 2, Task_title = py ''Feed cat'',
                          Task_due_date = None, Task_note = None, Task_done = False,
                          Task_created_at = 6\<rparr>]"
proof -
  let ?kvs = "[(py ''title'', JStr (py ''Feed cat'')), (py ''due_date'', JStr [])]"
  have added: "add_task demo_env 6 (Some (JObj ?kvs)) demo_db (Some 2)
                 = (cat_db, Some 2, Jsonify ok_true 200)"
    unfolding cat_db_def by (simp add: add_eval)
  have due: "map_of ?kvs (py ''due_date'') = Some (JStr [])"
    and no_note: "map_of ?kvs (py ''note'') = None"
    by (simp_all add: py_eq_iff)
  have rows: "tasks cat_db
     = tasks demo_db @ [\<lparr>Task_id = 4, Task_user_id = 2, Task_title = py ''Feed cat'',
                          Task_due_date = None, Task_note = None, Task_done = False,
                          Task_created_at = 6\<rparr>]"
    unfolding cat_db_def by (simp add: add_eval demo_db_eq)
  from add_task_empty_optionals_stored_as_None [OF added] due no_note
  obtain t where "tasks cat_db = tasks demo_db @ [t]"
    and "Task_due_date t = None" and "Task_note t = None"
    by auto
  with rows added show ?thesis by simp
qed

section \<open>What is stored as a due date\<close>

text \<open>
  C8 on the source.  \<open>add_task\<close> stores under \<open>due_date\<close> whatever non-empty string
  the request carries: posting \<open>{"title": "x", "due_date": "tomorrow"}\<close> creates a task
  whose \<open>due_date\<close> is \<open>tomorrow\<close>, which is not of the form \<open>YYYY-MM-DD\<close>.
\<close>

theorem add_task_stores_unvalidated_due_date:
  "add_task demo_env 6
      (Some (JObj [(py ''title'', JStr (py ''x'')), (py ''due_date'', JStr (py ''tomorrow''))]))
      empty_db (Some 1)
     = (\<lparr>users = [],
         tasks = [\<lparr>Task_id = 1, Task_user_id = 1, Task_title = py ''x'',
                    Task_due_date = Some (py ''tomorrow''), Task_note = None,
                    Task_done = False, Task_created_at = 6\<rparr>],
         next_user_id = 1, next_task_id = 2\<rparr>,
        Some 1, Jsonify ok_true 200)
   \<and> \<not> iso_date (py ''tomorrow'')
   \<and> iso_date (py ''2024-05-01'')"
  by (simp add: add_eval empty_db_def iso_date_def isdigit_def)

end
